theory Spec2Isabelle
  imports Complex_Main "HOL-Library.Word"
begin

section \<open>Common types (soda.hpp)\<close>

text \<open>
  Reading a \<open>std::vector\<close> with \<open>operator[]\<close> outside its bounds, and writing
  through a pointer past the end of a buffer, is undefined behaviour in C++; dividing an
  unsigned integer by zero is too. The model makes each of them a value.
\<close>

datatype fault = OutOfRange | DivideByZero

text \<open>
  \<open>TrackInfo\<close>: the fields the playback core reads. The field \<open>id\<close> of the source
  is \<open>id_t\<close> here.
\<close>

record TrackInfo =
  id_t :: string
  title :: string
  filePath :: string
  sourceId :: string

datatype PlaybackState = Stopped | Playing | Paused | Buffering

datatype RepeatMode = Off | One | All_r

text \<open>
  \<open>float\<close>: a finite value, an infinity or NaN. Finite values are real numbers:
  rounding, overflow to infinity and the sign of zero are not modelled. \<open>fless\<close> is
  \<open>operator<\<close> (false whenever an operand is NaN) and \<open>fmul\<close> is
  \<open>operator*\<close>.
\<close>

datatype float = Fin real | PInf | NInf | NaN


fun fmul :: "float \<Rightarrow> float \<Rightarrow> float" where
  "fmul NaN b = NaN"
| "fmul a NaN = NaN"
| "fmul (Fin x) (Fin y) = Fin (x * y)"
| "fmul (Fin x) PInf = (if x = 0 then NaN else if 0 < x then PInf else NInf)"
| "fmul (Fin x) NInf = (if x = 0 then NaN else if 0 < x then NInf else PInf)"
| "fmul PInf (Fin y) = (if y = 0 then NaN else if 0 < y then PInf else NInf)"
| "fmul NInf (Fin y) = (if y = 0 then NaN else if 0 < y then NInf else PInf)"
| "fmul PInf PInf = PInf"
| "fmul PInf NInf = NInf"
| "fmul NInf PInf = NInf"
| "fmul NInf NInf = PInf"

section \<open>Queue (queue.hpp, queue.cpp)\<close>

text \<open>
  The members of \<open>class Queue\<close>. Indices are \<open>size_t\<close>: natural numbers below
  \<open>2 ^ 64\<close>, and the one place where the source adds to an index without a guard
  (\<open>currentIndex_ + 1\<close>) wraps around in the model as it does in the code.

  \<open>rng\<close> stands for \<open>std::mt19937 rng_\<close>: the sequence of numbers the generator
  will produce from now on. A draw from \<open>std::uniform_int_distribution<size_t>(0, i)\<close>
  consumes the head of the sequence and yields a value between \<open>0\<close> and \<open>i\<close>,
  both included; every such value is the outcome of some generator.
\<close>

record Queue =
  tracks :: "TrackInfo list"
  shuffleOrder :: "nat list"
  history :: "nat list"
  currentIndex :: nat
  shuffled :: bool
  rng :: "nat \<Rightarrow> nat"

definition empty_queue :: "(nat \<Rightarrow> nat) \<Rightarrow> Queue" where
  "empty_queue g =
     \<lparr>tracks = [], shuffleOrder = [], history = [], currentIndex = 0, shuffled = False, rng = g\<rparr>"

definition size_t_succ :: "nat \<Rightarrow> nat" where
  "size_t_succ n = (n + 1) mod 2 ^ 64"

definition dist_draw :: "nat \<Rightarrow> (nat \<Rightarrow> nat) \<Rightarrow> nat \<times> (nat \<Rightarrow> nat)" where
  "dist_draw i g = (g 0 mod (i + 1), (\<lambda>k. g (Suc k)))"

definition vec_at :: "'a list \<Rightarrow> nat \<Rightarrow> fault + 'a" where
  "vec_at xs i = (if i < length xs then Inr (xs ! i) else Inl OutOfRange)"

definition erase :: "nat \<Rightarrow> 'a list \<Rightarrow> 'a list" where
  "erase i xs = take i xs @ drop (Suc i) xs"

definition insert_at :: "nat \<Rightarrow> 'a \<Rightarrow> 'a list \<Rightarrow> 'a list" where
  "insert_at i x xs = take i xs @ x # drop i xs"

definition swap :: "nat \<Rightarrow> nat \<Rightarrow> 'a list \<Rightarrow> 'a list" where
  "swap i j xs = xs[i := xs ! j, j := xs ! i]"

text \<open>\<open>std::find\<close> / \<open>std::find_if\<close>: the position of the first match, if any.\<close>

fun find_pos :: "('a \<Rightarrow> bool) \<Rightarrow> 'a list \<Rightarrow> nat option" where
  "find_pos P [] = None"
| "find_pos P (x # xs) =
     (if P x then Some 0 else (case find_pos P xs of None \<Rightarrow> None | Some k \<Rightarrow> Some (Suc k)))"

text \<open>
  The two lines \<open>size_t index = shuffled_ ? shuffleOrder_[i] : i; return tracks_[index];\<close>
  that \<open>current\<close>, \<open>next\<close>, \<open>previous\<close> and the peeks share.
\<close>

definition visible_index :: "Queue \<Rightarrow> nat \<Rightarrow> fault + nat" where
  "visible_index q i = (if shuffled q then vec_at (shuffleOrder q) i else Inr i)"

definition track_at :: "Queue \<Rightarrow> nat \<Rightarrow> fault + TrackInfo" where
  "track_at q i =
     (case visible_index q i of Inl f \<Rightarrow> Inl f | Inr index \<Rightarrow> vec_at (tracks q) index)"

subsection \<open>updateShuffleOrder\<close>

text \<open>The loop \<open>for (i = size - 1; i > 0; --i) swap(order[i], order[dist(0, i)])\<close>.\<close>

fun reshuffle_loop :: "nat \<Rightarrow> nat list \<Rightarrow> (nat \<Rightarrow> nat) \<Rightarrow> nat list \<times> (nat \<Rightarrow> nat)" where
  "reshuffle_loop 0 order g = (order, g)"
| "reshuffle_loop (Suc k) order g =
     (case dist_draw (Suc k) g of (j, g') \<Rightarrow> reshuffle_loop k (swap (Suc k) j order) g')"

definition updateShuffleOrder :: "Queue \<Rightarrow> Queue" where
  "updateShuffleOrder q =
     (if tracks q = [] then q\<lparr>shuffleOrder := []\<rparr>
      else (case reshuffle_loop (length (tracks q) - 1) [0..<length (tracks q)] (rng q) of
              (order, g') \<Rightarrow> q\<lparr>shuffleOrder := order, rng := g'\<rparr>))"

subsection \<open>Mutation\<close>

definition add :: "TrackInfo \<Rightarrow> Queue \<Rightarrow> Queue" where
  "add track q =
     (let q1 = q\<lparr>tracks := tracks q @ [track]\<rparr>
      in if shuffled q1 then q1\<lparr>shuffleOrder := shuffleOrder q1 @ [length (tracks q1) - 1]\<rparr>
         else q1)"

definition addAll :: "TrackInfo list \<Rightarrow> Queue \<Rightarrow> Queue" where
  "addAll ts q =
     (let startIndex = length (tracks q);
          q1 = q\<lparr>tracks := tracks q @ ts\<rparr>
      in if shuffled q1
         then q1\<lparr>shuffleOrder := shuffleOrder q1 @ [startIndex..<length (tracks q1)]\<rparr>
         else q1)"

definition addNext :: "TrackInfo \<Rightarrow> Queue \<Rightarrow> Queue" where
  "addNext track q =
     (let insertPos = size_t_succ (currentIndex q);
          q1 = (if insertPos \<ge> length (tracks q) then q\<lparr>tracks := tracks q @ [track]\<rparr>
                else q\<lparr>tracks := insert_at insertPos track (tracks q)\<rparr>)
      in if shuffled q1 then updateShuffleOrder q1 else q1)"

text \<open>\<open>Queue::remove(size_t index)\<close>.\<close>

definition remove_index :: "nat \<Rightarrow> Queue \<Rightarrow> Queue" where
  "remove_index index q =
     (if index \<ge> length (tracks q) then q
      else
        let q1 = q\<lparr>tracks := erase index (tracks q)\<rparr>;
            q2 = (if index < currentIndex q1 then q1\<lparr>currentIndex := currentIndex q1 - 1\<rparr>
                  else if index = currentIndex q1 \<and> currentIndex q1 \<ge> length (tracks q1)
                  then q1\<lparr>currentIndex := (if tracks q1 = [] then 0 else length (tracks q1) - 1)\<rparr>
                  else q1)
        in if shuffled q2 then updateShuffleOrder q2 else q2)"

text \<open>\<open>Queue::remove(const std::string& trackId)\<close>.\<close>

definition remove_id :: "string \<Rightarrow> Queue \<Rightarrow> Queue" where
  "remove_id trackId q =
     (case find_pos (\<lambda>t. id_t t = trackId) (tracks q) of
        None \<Rightarrow> q
      | Some index \<Rightarrow>
          let q1 = q\<lparr>tracks := erase index (tracks q)\<rparr>;
              q2 = (if index < currentIndex q1 then q1\<lparr>currentIndex := currentIndex q1 - 1\<rparr>
                    else q1)
          in if shuffled q2 then updateShuffleOrder q2 else q2)"

definition clear :: "Queue \<Rightarrow> Queue" where
  "clear q = q\<lparr>tracks := [], shuffleOrder := [], history := [], currentIndex := 0\<rparr>"

definition move :: "nat \<Rightarrow> nat \<Rightarrow> Queue \<Rightarrow> Queue" where
  "move fromIndex toIndex q =
     (if fromIndex \<ge> length (tracks q) \<or> toIndex \<ge> length (tracks q) then q
      else
        let track = tracks q ! fromIndex;
            q1 = q\<lparr>tracks := insert_at toIndex track (erase fromIndex (tracks q))\<rparr>;
            q2 = (if fromIndex = currentIndex q1 then q1\<lparr>currentIndex := toIndex\<rparr>
                  else if fromIndex < currentIndex q1 \<and> toIndex \<ge> currentIndex q1
                  then q1\<lparr>currentIndex := currentIndex q1 - 1\<rparr>
                  else if fromIndex > currentIndex q1 \<and> toIndex \<le> currentIndex q1
                  then q1\<lparr>currentIndex := currentIndex q1 + 1\<rparr>
                  else q1)
        in if shuffled q2 then updateShuffleOrder q2 else q2)"

subsection \<open>Navigation\<close>

definition current :: "Queue \<Rightarrow> fault + TrackInfo option" where
  "current q =
     (if tracks q = [] then Inr None
      else (case track_at q (currentIndex q) of Inl f \<Rightarrow> Inl f | Inr t \<Rightarrow> Inr (Some t)))"

text \<open>\<open>Queue::next\<close>: the returned track, and the queue afterwards.\<close>

definition next_q :: "Queue \<Rightarrow> fault + (TrackInfo option \<times> Queue)" where
  "next_q q =
     (if tracks q = [] then Inr (None, q)
      else
        let q1 = q\<lparr>history := history q @ [currentIndex q]\<rparr>
        in if size_t_succ (currentIndex q1) \<ge> length (tracks q1) then Inr (None, q1)
           else
             let q2 = q1\<lparr>currentIndex := size_t_succ (currentIndex q1)\<rparr>
             in (case track_at q2 (currentIndex q2) of
                   Inl f \<Rightarrow> Inl f
                 | Inr t \<Rightarrow> Inr (Some t, q2)))"

definition previous_q :: "Queue \<Rightarrow> fault + (TrackInfo option \<times> Queue)" where
  "previous_q q =
     (if tracks q = [] then Inr (None, q)
      else if history q \<noteq> [] then
        (let q1 = q\<lparr>currentIndex := last (history q), history := butlast (history q)\<rparr>
         in (case track_at q1 (currentIndex q1) of
               Inl f \<Rightarrow> Inl f
             | Inr t \<Rightarrow> Inr (Some t, q1)))
      else if currentIndex q > 0 then
        (let q1 = q\<lparr>currentIndex := currentIndex q - 1\<rparr>
         in (case track_at q1 (currentIndex q1) of
               Inl f \<Rightarrow> Inl f
             | Inr t \<Rightarrow> Inr (Some t, q1)))
      else Inr (None, q))"

definition jumpTo :: "nat \<Rightarrow> Queue \<Rightarrow> Queue" where
  "jumpTo index q =
     (if index < length (tracks q)
      then q\<lparr>history := history q @ [currentIndex q], currentIndex := index\<rparr>
      else q)"

text \<open>The loop of \<open>jumpToId\<close> over the positions \<open>0 .. size - 1\<close>.\<close>

fun jumpToId_loop :: "string \<Rightarrow> Queue \<Rightarrow> nat list \<Rightarrow> fault + Queue" where
  "jumpToId_loop trackId q [] = Inr q"
| "jumpToId_loop trackId q (i # rest) =
     (case track_at q i of
        Inl f \<Rightarrow> Inl f
      | Inr t \<Rightarrow>
          if id_t t = trackId
          then Inr (q\<lparr>history := history q @ [currentIndex q], currentIndex := i\<rparr>)
          else jumpToId_loop trackId q rest)"

definition jumpToId :: "string \<Rightarrow> Queue \<Rightarrow> fault + Queue" where
  "jumpToId trackId q = jumpToId_loop trackId q [0..<length (tracks q)]"

subsection \<open>Shuffle\<close>

text \<open>
  The loop of \<open>Queue::shuffle\<close>, \<open>i\<close> running from \<open>size - 1\<close> down to \<open>1\<close>;
  \<open>n\<close> is \<open>tracks_.size()\<close> and \<open>ci\<close> is \<open>currentIndex_\<close>.
\<close>

fun shuffle_loop ::
  "nat \<Rightarrow> nat \<Rightarrow> nat \<Rightarrow> nat list \<Rightarrow> (nat \<Rightarrow> nat) \<Rightarrow> nat list \<times> (nat \<Rightarrow> nat)" where
  "shuffle_loop 0 n ci order g = (order, g)"
| "shuffle_loop (Suc k) n ci order g =
     (if Suc k = ci then shuffle_loop k n ci order g
      else (case dist_draw (Suc k) g of (j0, g') \<Rightarrow>
        let j = (if j0 = ci
                 then (let j1 = (j0 + 1) mod n in if j1 = ci then 0 else j1)
                 else j0)
        in shuffle_loop k n ci (swap (Suc k) j order) g'))"

definition shuffle :: "Queue \<Rightarrow> fault + Queue" where
  "shuffle q =
     (if tracks q = [] then Inr q
      else
        let n = length (tracks q);
            q1 = q\<lparr>shuffleOrder := [0..<n]\<rparr>
        in (case visible_index q1 (currentIndex q1) of
              Inl f \<Rightarrow> Inl f
            | Inr currentTrackIndex \<Rightarrow>
               (case shuffle_loop (n - 1) n (currentIndex q1) (shuffleOrder q1) (rng q1) of
                  (order, g') \<Rightarrow>
                    (case find_pos (\<lambda>x. x = currentTrackIndex) order of
                       None \<Rightarrow> Inr (q1\<lparr>shuffleOrder := order, rng := g', shuffled := True\<rparr>)
                     | Some it \<Rightarrow>
                         if currentIndex q1 < length order
                         then Inr (q1\<lparr>shuffleOrder := swap it (currentIndex q1) order,
                                      rng := g', shuffled := True\<rparr>)
                         else Inl OutOfRange))))"

definition unshuffle :: "Queue \<Rightarrow> fault + Queue" where
  "unshuffle q =
     (if \<not> shuffled q then Inr q
      else (case vec_at (shuffleOrder q) (currentIndex q) of
              Inl f \<Rightarrow> Inl f
            | Inr realIndex \<Rightarrow>
                Inr (q\<lparr>currentIndex := realIndex, shuffleOrder := [], shuffled := False\<rparr>)))"

subsection \<open>Sequences of operations\<close>

datatype queue_op =
    Add TrackInfo
  | AddAll "TrackInfo list"
  | AddNext TrackInfo
  | RemoveIndex nat
  | RemoveId string
  | Move nat nat
  | Clear
  | JumpTo nat
  | JumpToId string
  | Next
  | Previous
  | Shuffle
  | Unshuffle

fun apply_op :: "Queue \<Rightarrow> queue_op \<Rightarrow> fault + Queue" where
  "apply_op q (Add t) = Inr (add t q)"
| "apply_op q (AddAll ts) = Inr (addAll ts q)"
| "apply_op q (AddNext t) = Inr (addNext t q)"
| "apply_op q (RemoveIndex i) = Inr (remove_index i q)"
| "apply_op q (RemoveId s) = Inr (remove_id s q)"
| "apply_op q (Move i j) = Inr (move i j q)"
| "apply_op q Clear = Inr (clear q)"
| "apply_op q (JumpTo i) = Inr (jumpTo i q)"
| "apply_op q (JumpToId s) = jumpToId s q"
| "apply_op q Next = map_sum (\<lambda>f. f) snd (next_q q)"
| "apply_op q Previous = map_sum (\<lambda>f. f) snd (previous_q q)"
| "apply_op q Shuffle = shuffle q"
| "apply_op q Unshuffle = unshuffle q"

fun apply_ops :: "Queue \<Rightarrow> queue_op list \<Rightarrow> fault + Queue" where
  "apply_ops q [] = Inr q"
| "apply_ops q (x # xs) =
     (case apply_op q x of Inl f \<Rightarrow> Inl f | Inr q' \<Rightarrow> apply_ops q' xs)"

text \<open>The fixture of the queue tests (test_queue.cpp).\<close>

definition createTrack :: "string \<Rightarrow> string \<Rightarrow> TrackInfo" where
  "createTrack i t = \<lparr>id_t = i, title = t, filePath = [], sourceId = []\<rparr>"

text \<open>The id of the track \<open>current()\<close> returns.\<close>

definition current_id :: "Queue \<Rightarrow> fault + string option" where
  "current_id q = map_sum (\<lambda>f. f) (map_option id_t) (current q)"

text \<open>
  The bounds under which no read of \<open>current\<close>, \<open>next\<close> and \<open>previous\<close> leaves
  its vector: the cursor is inside the track list and, when shuffled, the shuffle order
  has one entry per track, each a valid natural index.
\<close>

definition queue_ok :: "Queue \<Rightarrow> bool" where
  "queue_ok q \<longleftrightarrow>
     (tracks q \<noteq> [] \<longrightarrow>
        currentIndex q < length (tracks q) \<and>
        (shuffled q \<longrightarrow>
           length (shuffleOrder q) = length (tracks q) \<and>
           (\<forall>x \<in> set (shuffleOrder q). x < length (tracks q))))"

section \<open>AudioDecoder (audio_decoder.hpp, audio_decoder.cpp)\<close>

text \<open>
  The miniaudio handle behind \<open>decoder_\<close> is the stub of
  third_party/miniaudio/miniaudio.h. It ignores the format the decoder asks for and has
  two backends.

  A WAV file is read with \<open>fread\<close>, byte for byte, into the output buffer. The
  buffer is a list of \<open>float\<close> cells of four bytes each, so the file is seen through
  \<open>cell_at\<close>, the \<open>float\<close> that the four bytes at a byte offset of the file form, and
  \<open>patch_at\<close>, the \<open>float\<close> a cell becomes when only its first \<open>k\<close> bytes (fewer
  than four) are overwritten with the file's bytes at an offset. \<open>filePos\<close> is the
  position of the stream and \<open>fileSize\<close> the size of the file, both in bytes from the
  start of the file.
\<close>

record wav_file =
  bytesPerFrame :: nat
  dataOffset :: nat
  fileSize :: nat
  filePos :: nat
  cell_at :: "nat \<Rightarrow> float"
  patch_at :: "nat \<Rightarrow> nat \<Rightarrow> float \<Rightarrow> float"

text \<open>
  Any other file goes through libsndfile, loaded at run time: \<open>sf_readf_float\<close>
  delivers whole frames of \<open>sf_channels\<close> floats each, \<open>sf_seek\<close> moves to a frame
  of the file or fails. \<open>has_readf\<close> and \<open>has_seek\<close> say whether \<open>dlsym\<close> finds
  the two functions. The stub's own \<open>currentFrame\<close> and \<open>atEnd\<close> are left out:
  nothing reads them. A handle that has neither a file nor a libsndfile
  handle reads and seeks like one whose two functions are missing.
\<close>

record snd_file =
  sf_channels :: nat
  sf_data :: "float list"
  sf_pos :: nat
  sf_seekable :: bool
  has_readf :: bool
  has_seek :: bool

datatype ma_backend = Wav wav_file | Snd snd_file

record ma_decoder =
  backend :: ma_backend
  totalFrameCount :: "64 word"
  outputSampleRate :: "32 word"
  outputChannels :: "32 word"

text \<open>Writing \<open>xs\<close> into a buffer from offset \<open>off\<close> on.\<close>

definition write_at :: "float list \<Rightarrow> nat \<Rightarrow> float list \<Rightarrow> fault + float list" where
  "write_at buf off xs =
     (if off + length xs \<le> length buf
      then Inr (take off buf @ xs @ drop (off + length xs) buf)
      else Inl OutOfRange)"

text \<open>\<open>fread\<close> of \<open>n\<close> bytes, which the file has, to the start of a buffer.\<close>

definition fread_into :: "wav_file \<Rightarrow> nat \<Rightarrow> float list \<Rightarrow> fault + float list" where
  "fread_into w n buf =
     (if 4 * length buf < n then Inl OutOfRange
      else
        let full = n div 4;
            cells = map (\<lambda>i. cell_at w (filePos w + 4 * i)) [0..<full];
            part = (if n mod 4 = 0 then []
                    else [patch_at w (filePos w + 4 * full) (n mod 4) (buf ! full)])
        in Inr (cells @ part @ drop (full + length part) buf))"

text \<open>
  \<open>ma_decoder_read_pcm_frames\<close>: the number of frames read, the output buffer and the
  handle afterwards.
\<close>

definition ma_decoder_read_pcm_frames ::
  "ma_decoder \<Rightarrow> float list \<Rightarrow> nat \<Rightarrow> fault + (nat \<times> float list \<times> ma_decoder)" where
  "ma_decoder_read_pcm_frames m pFramesOut frameCount =
     (case backend m of
        Wav w \<Rightarrow>
          let bytesToRead = (frameCount * bytesPerFrame w) mod 2 ^ 64;
              bytesRead = min bytesToRead (fileSize w - filePos w)
          in (case fread_into w bytesRead pFramesOut of
                Inl f \<Rightarrow> Inl f
              | Inr out \<Rightarrow>
                  if bytesPerFrame w = 0 then Inl DivideByZero
                  else Inr (bytesRead div bytesPerFrame w, out,
                            m\<lparr>backend := Wav (w\<lparr>filePos := filePos w + bytesRead\<rparr>)\<rparr>))
      | Snd f \<Rightarrow>
          if \<not> has_readf f then Inr (0, pFramesOut, m)
          else
            let framesRead = min frameCount (length (sf_data f) div sf_channels f - sf_pos f);
                samples = take (framesRead * sf_channels f)
                            (drop (sf_pos f * sf_channels f) (sf_data f))
            in (case write_at pFramesOut 0 samples of
                  Inl e \<Rightarrow> Inl e
                | Inr out \<Rightarrow>
                    Inr (framesRead, out,
                         m\<lparr>backend := Snd (f\<lparr>sf_pos := sf_pos f + framesRead\<rparr>)\<rparr>)))"

text \<open>
  \<open>ma_decoder_seek_to_pcm_frame\<close>: the handle afterwards, or \<open>None\<close> on failure. The
  WAV offset is computed in 64 bits and handed to \<open>fseek\<close> as a signed number.
\<close>

definition ma_decoder_seek_to_pcm_frame :: "ma_decoder \<Rightarrow> 64 word \<Rightarrow> ma_decoder option" where
  "ma_decoder_seek_to_pcm_frame m frameIndex =
     (case backend m of
        Wav w \<Rightarrow>
          let offset = (dataOffset w + unat frameIndex * bytesPerFrame w) mod 2 ^ 64
          in if 2 ^ 63 \<le> offset then None
             else Some (m\<lparr>backend := Wav (w\<lparr>filePos := offset\<rparr>)\<rparr>)
      | Snd f \<Rightarrow>
          if \<not> has_seek f then Some m
          else if sf_seekable f \<and> unat frameIndex \<le> length (sf_data f) div sf_channels f
          then Some (m\<lparr>backend := Snd (f\<lparr>sf_pos := unat frameIndex\<rparr>)\<rparr>)
          else None)"

text \<open>
  What is outside the process: the file system, the outcome of
  \<open>ma_decoder_init_file\<close> on a path, and whether the device thread can be created.
\<close>

record World =
  file_exists :: "string \<Rightarrow> bool"
  decoder_init_file :: "string \<Rightarrow> ma_decoder option"
  thread_create_ok :: bool

datatype Result = Ok | Err string

record AudioDecoder =
  handle :: "ma_decoder option"
  isOpen :: bool
  isStreaming :: bool
  totalFrames :: "64 word"
  currentFrame :: "64 word"
  sampleRate :: "32 word"
  channels :: "32 word"
  streamRunning :: bool

text \<open>
  \<open>Duration\<close> is \<open>std::chrono::milliseconds\<close>, a signed 64-bit count; constructing it
  from a \<open>uint64_t\<close> reinterprets the bits.
\<close>

definition Duration :: "64 word \<Rightarrow> int" where
  "Duration w = sint w"

text \<open>Unsigned 64-bit division as the machine performs it: undefined on a zero divisor.\<close>

definition udiv64 :: "64 word \<Rightarrow> 64 word \<Rightarrow> fault + 64 word" where
  "udiv64 a b = (if b = 0 then Inl DivideByZero else Inr (a div b))"

definition close :: "AudioDecoder \<Rightarrow> AudioDecoder" where
  "close d =
     d\<lparr>streamRunning := False, handle := None, isOpen := False, isStreaming := False,
       totalFrames := 0, currentFrame := 0\<rparr>"

definition openWithMiniaudio :: "World \<Rightarrow> string \<Rightarrow> AudioDecoder \<Rightarrow> Result \<times> AudioDecoder" where
  "openWithMiniaudio w path d =
     (case decoder_init_file w path of
        None \<Rightarrow> (Err ''Failed to open audio file'', d\<lparr>handle := None\<rparr>)
      | Some m \<Rightarrow>
          (Ok, d\<lparr>handle := Some m, sampleRate := outputSampleRate m,
                 channels := outputChannels m, totalFrames := totalFrameCount m,
                 currentFrame := 0, isOpen := True, isStreaming := False\<rparr>))"

definition open_file :: "World \<Rightarrow> string \<Rightarrow> AudioDecoder \<Rightarrow> Result \<times> AudioDecoder" where
  "open_file w path d =
     (let d1 = close d
      in if \<not> file_exists w path then (Err (''File not found: '' @ path), d1)
         else openWithMiniaudio w path d1)"

definition openUrl :: "string \<Rightarrow> AudioDecoder \<Rightarrow> Result \<times> AudioDecoder" where
  "openUrl url d = (Err ''URL streaming not yet implemented'', d)"

text \<open>
  \<open>readFrames\<close>: the number of frames read, the output buffer and the decoder
  afterwards.
\<close>

definition readFrames ::
  "float list \<Rightarrow> nat \<Rightarrow> AudioDecoder \<Rightarrow> fault + (nat \<times> float list \<times> AudioDecoder)" where
  "readFrames output frameCount d =
     (case handle d of
        None \<Rightarrow> Inr (0, output, d)
      | Some m \<Rightarrow>
          if \<not> isOpen d then Inr (0, output, d)
          else (case ma_decoder_read_pcm_frames m output frameCount of
                  Inl f \<Rightarrow> Inl f
                | Inr (framesRead, output', m') \<Rightarrow>
                    Inr (framesRead, output',
                         d\<lparr>handle := Some m',
                           currentFrame := currentFrame d + of_nat framesRead\<rparr>)))"

definition seek :: "64 word \<Rightarrow> AudioDecoder \<Rightarrow> bool \<times> AudioDecoder" where
  "seek frameIndex d =
     (case handle d of
        None \<Rightarrow> (False, d)
      | Some m \<Rightarrow>
          if \<not> isOpen d then (False, d)
          else (case ma_decoder_seek_to_pcm_frame m frameIndex of
                  None \<Rightarrow> (False, d)
                | Some m' \<Rightarrow> (True, d\<lparr>handle := Some m', currentFrame := frameIndex\<rparr>)))"

text \<open>\<open>AudioDecoder::duration\<close> and \<open>AudioDecoder::position\<close>.\<close>

definition decoder_duration :: "AudioDecoder \<Rightarrow> fault + int" where
  "decoder_duration d =
     (if sampleRate d = 0 then Inr (Duration 0)
      else map_sum (\<lambda>f. f) Duration (udiv64 (totalFrames d * 1000) (ucast (sampleRate d))))"

definition decoder_position :: "AudioDecoder \<Rightarrow> fault + int" where
  "decoder_position d =
     (if sampleRate d = 0 then Inr (Duration 0)
      else map_sum (\<lambda>f. f) Duration (udiv64 (currentFrame d * 1000) (ucast (sampleRate d))))"

section \<open>EventBus (event_bus.cpp)\<close>

datatype EventType =
    PlaybackStarted | PlaybackPaused | PlaybackStopped | PlaybackProgress
  | TrackChanged | QueueChanged | VolumeChanged | ErrorEvent

datatype EventData = Monostate | TrackData TrackInfo | StringData string | DoubleData float

text \<open>
  \<open>published\<close>: the events handed to the subscribers by \<open>publish\<close>, oldest first;
  \<open>eventQueue\<close>: the events \<open>publishAsync\<close> has queued for \<open>processQueue\<close>.
\<close>

record EventBus =
  published :: "(EventType \<times> EventData) list"
  eventQueue :: "(EventType \<times> EventData) list"

definition publish :: "EventType \<times> EventData \<Rightarrow> EventBus \<Rightarrow> EventBus" where
  "publish ev b = b\<lparr>published := published b @ [ev]\<rparr>"

definition publishAsync :: "EventType \<times> EventData \<Rightarrow> EventBus \<Rightarrow> EventBus" where
  "publishAsync ev b = b\<lparr>eventQueue := eventQueue b @ [ev]\<rparr>"

section \<open>AudioEngine (audio_engine.hpp, audio_engine.cpp)\<close>

text \<open>
  The members of \<open>class AudioEngine\<close>. \<open>device\<close> is \<open>None\<close> while \<open>device_\<close> is
  the null pointer and otherwise holds the device's \<open>isStarted\<close> flag. The atomic cells
  are plain fields: every property below is about one call running alone.
  \<open>audioDataCallback\<close> is \<open>None\<close> while no visualizer tap is set and otherwise the
  list of calls the tap has received (samples, frame count, channel count).
\<close>

record AudioEngine =
  eventBus :: EventBus
  queue :: Queue
  decoder :: AudioDecoder
  device :: "bool option"
  state :: PlaybackState
  volume :: float
  currentFrame_a :: "64 word"
  totalFrames_a :: "64 word"
  repeatMode :: RepeatMode
  currentTrack :: "TrackInfo option"
  audioDataCallback :: "(float list \<times> nat \<times> nat) list option"
  progressRunning :: bool
  initialized :: bool

definition ma_device_stop :: "bool option \<Rightarrow> bool option" where
  "ma_device_stop dev = (case dev of None \<Rightarrow> None | Some started \<Rightarrow> Some False)"

text \<open>\<open>ma_device_start\<close>: success, and the device afterwards.\<close>

definition ma_device_start :: "World \<Rightarrow> bool option \<Rightarrow> bool \<times> bool option" where
  "ma_device_start w dev =
     (case dev of
        None \<Rightarrow> (False, None)
      | Some started \<Rightarrow>
          if started then (True, Some True)
          else if thread_create_ok w then (True, Some True)
          else (False, Some False))"

definition startProgressTimer :: "AudioEngine \<Rightarrow> AudioEngine" where
  "startProgressTimer e = (if progressRunning e then e else e\<lparr>progressRunning := True\<rparr>)"

definition stopProgressTimer :: "AudioEngine \<Rightarrow> AudioEngine" where
  "stopProgressTimer e = (if \<not> progressRunning e then e else e\<lparr>progressRunning := False\<rparr>)"

definition stop :: "AudioEngine \<Rightarrow> Result \<times> AudioEngine" where
  "stop e =
     (if state e = Stopped then (Ok, e)
      else
        let e1 = e\<lparr>device := ma_device_stop (device e), decoder := close (decoder e),
                   state := Stopped, currentFrame_a := 0, totalFrames_a := 0\<rparr>;
            e2 = stopProgressTimer e1;
            e3 = e2\<lparr>currentTrack := None\<rparr>
        in (Ok, e3\<lparr>eventBus := publish (PlaybackStopped, Monostate) (eventBus e3)\<rparr>))"

definition playTrack :: "World \<Rightarrow> TrackInfo \<Rightarrow> AudioEngine \<Rightarrow> Result \<times> AudioEngine" where
  "playTrack w track e =
     (let e1 = e\<lparr>device := ma_device_stop (device e), decoder := close (decoder e)\<rparr>;
          (r1, d1) = open_file w (filePath track) (decoder e1);
          (r2, d2) = (if r1 \<noteq> Ok \<and> sourceId track \<noteq> [] then openUrl (sourceId track) d1
                      else (r1, d1));
          e2 = e1\<lparr>decoder := d2\<rparr>
      in if r2 \<noteq> Ok then (r2, e2)
         else
           let e3 = e2\<lparr>totalFrames_a := totalFrames (decoder e2), currentFrame_a := 0,
                      currentTrack := Some track\<rparr>;
               (started, dev) = ma_device_start w (device e3);
               e4 = e3\<lparr>device := dev\<rparr>
           in if \<not> started then (Err ''Failed to start audio device'', e4)
              else
                let e5 = startProgressTimer (e4\<lparr>state := Playing\<rparr>);
                    b = publish (PlaybackStarted, TrackData track)
                          (publish (TrackChanged, TrackData track) (eventBus e5))
                in (Ok, e5\<lparr>eventBus := b\<rparr>))"

definition playNext :: "World \<Rightarrow> AudioEngine \<Rightarrow> fault + (Result \<times> AudioEngine)" where
  "playNext w e =
     (case next_q (queue e) of
        Inl f \<Rightarrow> Inl f
      | Inr (track, q') \<Rightarrow>
          (case track of
             Some t \<Rightarrow> Inr (playTrack w t (e\<lparr>queue := q'\<rparr>))
           | None \<Rightarrow> Inr (Ok, snd (stop (e\<lparr>queue := q'\<rparr>)))))"

definition playPrevious :: "World \<Rightarrow> AudioEngine \<Rightarrow> fault + (Result \<times> AudioEngine)" where
  "playPrevious w e =
     (case previous_q (queue e) of
        Inl f \<Rightarrow> Inl f
      | Inr (track, q') \<Rightarrow>
          (case track of
             Some t \<Rightarrow> Inr (playTrack w t (e\<lparr>queue := q'\<rparr>))
           | None \<Rightarrow> Inr (Ok, e\<lparr>queue := q'\<rparr>)))"

text \<open>\<open>AudioEngine::position\<close> and \<open>AudioEngine::duration\<close>.\<close>

definition engine_position :: "AudioEngine \<Rightarrow> fault + int" where
  "engine_position e =
     (if sampleRate (decoder e) = 0 then Inr (Duration 0)
      else map_sum (\<lambda>f. f) Duration
             (udiv64 (currentFrame_a e * 1000) (ucast (sampleRate (decoder e)))))"

definition engine_duration :: "AudioEngine \<Rightarrow> fault + int" where
  "engine_duration e =
     (if sampleRate (decoder e) = 0 then Inr (Duration 0)
      else map_sum (\<lambda>f. f) Duration
             (udiv64 (totalFrames_a e * 1000) (ucast (sampleRate (decoder e)))))"



definition onTrackEnded :: "AudioEngine \<Rightarrow> fault + AudioEngine" where
  "onTrackEnded e =
     (if repeatMode e = One
      then Inr (e\<lparr>decoder := snd (seek 0 (decoder e)), currentFrame_a := 0\<rparr>)
      else
        (case next_q (queue e) of
           Inl f \<Rightarrow> Inl f
         | Inr (track, q') \<Rightarrow>
             let e1 = e\<lparr>queue := q'\<rparr>
             in (case track of
                   Some t \<Rightarrow>
                     Inr (e1\<lparr>eventBus := publishAsync (TrackChanged, TrackData t) (eventBus e1)\<rparr>)
                 | None \<Rightarrow>
                     if repeatMode e1 = All_r \<and> tracks (queue e1) \<noteq> []
                     then
                       (let e2 = e1\<lparr>queue := jumpTo 0 (queue e1)\<rparr>
                        in (case current (queue e2) of
                              Inl f \<Rightarrow> Inl f
                            | Inr None \<Rightarrow> Inr e2
                            | Inr (Some t) \<Rightarrow>
                                Inr (e2\<lparr>eventBus :=
                                          publishAsync (TrackChanged, TrackData t) (eventBus e2)\<rparr>)))
                     else
                       Inr (e1\<lparr>state := Stopped,
                               eventBus := publishAsync (PlaybackStopped, Monostate) (eventBus e1)\<rparr>))))"

text \<open>
  The audio callback up to the end-of-track test: silence when idle (the flag is
  \<open>False\<close>: the callback returns there), otherwise read, scale by the volume, zero the
  shortfall and call the tap. \<open>output\<close> is the device's buffer of interleaved samples.
\<close>

definition scale_prefix :: "nat \<Rightarrow> float \<Rightarrow> float list \<Rightarrow> float list" where
  "scale_prefix n vol buf = map (\<lambda>x. fmul x vol) (take n buf) @ drop n buf"

definition audioCallback_fill ::
  "float list \<Rightarrow> nat \<Rightarrow> AudioEngine \<Rightarrow> fault + (bool \<times> float list \<times> AudioEngine)" where
  "audioCallback_fill output frameCount e =
     (if state e \<noteq> Playing \<or> \<not> isOpen (decoder e)
      then (case write_at output 0 (replicate (frameCount * 2) (Fin 0)) of
              Inl f \<Rightarrow> Inl f
            | Inr out \<Rightarrow> Inr (False, out, e))
      else
        (case readFrames output frameCount (decoder e) of
           Inl f \<Rightarrow> Inl f
         | Inr (framesRead, out1, d1) \<Rightarrow>
             let e1 = e\<lparr>decoder := d1, currentFrame_a := currentFrame_a e + of_nat framesRead\<rparr>;
                 vol = volume e1;
                 out2 = scale_prefix (framesRead * 2) vol out1
             in (case (if framesRead < frameCount
                       then write_at out2 (framesRead * 2)
                              (replicate ((frameCount - framesRead) * 2) (Fin 0))
                       else Inr out2) of
                   Inl f \<Rightarrow> Inl f
                 | Inr out3 \<Rightarrow>
                     let e2 = (case audioDataCallback e1 of
                                 None \<Rightarrow> e1
                               | Some calls \<Rightarrow>
                                   e1\<lparr>audioDataCallback :=
                                        Some (calls @ [(out3, framesRead, 2)])\<rparr>)
                     in Inr (True, out3, e2))))"

definition audioCallback ::
  "float list \<Rightarrow> nat \<Rightarrow> AudioEngine \<Rightarrow> fault + (float list \<times> AudioEngine)" where
  "audioCallback output frameCount e =
     (case audioCallback_fill output frameCount e of
        Inl f \<Rightarrow> Inl f
      | Inr (playing, out, e2) \<Rightarrow>
          if playing \<and> currentFrame (decoder e2) \<ge> totalFrames (decoder e2)
          then (case onTrackEnded e2 of Inl f \<Rightarrow> Inl f | Inr e3 \<Rightarrow> Inr (out, e3))
          else Inr (out, e2))"



text \<open>\<open>playNext()\<close> called \<open>n\<close> times in a row, and what a caller sees of the engine.\<close>

fun playNext_times :: "World \<Rightarrow> nat \<Rightarrow> AudioEngine \<Rightarrow> fault + AudioEngine" where
  "playNext_times w 0 e = Inr e"
| "playNext_times w (Suc n) e =
     (case playNext w e of Inl f \<Rightarrow> Inl f | Inr (r, e') \<Rightarrow> playNext_times w n e')"

definition engine_view :: "AudioEngine \<Rightarrow> PlaybackState \<times> nat \<times> string option" where
  "engine_view e = (state e, currentIndex (queue e), map_option id_t (currentTrack e))"

section \<open>Concrete states\<close>

definition track_a :: TrackInfo where
  "track_a = createTrack ''1'' ''Track 1''"

definition track_b :: TrackInfo where
  "track_b = createTrack ''2'' ''Track 2''"

definition track_c :: TrackInfo where
  "track_c = createTrack ''3'' ''Track 3''"

text \<open>A generator whose every draw is the lower bound of its distribution.\<close>

definition rng_zero :: "nat \<Rightarrow> nat" where
  "rng_zero = (\<lambda>k. 0)"

definition q_single :: Queue where
  "q_single =
     \<lparr>tracks = [track_a], shuffleOrder = [], history = [], currentIndex = 0,
       shuffled = False, rng = rng_zero\<rparr>"

definition q_three :: Queue where
  "q_three =
     \<lparr>tracks = [track_a, track_b, track_c], shuffleOrder = [], history = [],
       currentIndex = 0, shuffled = False, rng = rng_zero\<rparr>"

definition q_shuffled :: Queue where
  "q_shuffled =
     \<lparr>tracks = [track_a, track_b, track_c], shuffleOrder = [0, 2, 1], history = [],
       currentIndex = 0, shuffled = True, rng = rng_zero\<rparr>"

definition q_shuffled_next :: Queue where
  "q_shuffled_next =
     \<lparr>tracks = [track_a, track_b, track_c], shuffleOrder = [0, 2, 1], history = [0],
       currentIndex = 1, shuffled = True, rng = rng_zero\<rparr>"

definition q_three_end :: Queue where
  "q_three_end = q_three\<lparr>history := [0, 1], currentIndex := 2\<rparr>"

definition q_three_wrapped :: Queue where
  "q_three_wrapped = q_three\<lparr>history := [0, 1, 2, 2], currentIndex := 0\<rparr>"

text \<open>Three tracks with files, and a world in which every named file opens.\<close>

definition track_file :: "string \<Rightarrow> TrackInfo" where
  "track_file i = (createTrack i (''Track '' @ i))\<lparr>filePath := ''/music/'' @ i @ ''.wav''\<rparr>"

definition q_files :: Queue where
  "q_files =
     \<lparr>tracks = [track_file ''1'', track_file ''2'', track_file ''3''], shuffleOrder = [],
       history = [], currentIndex = 0, shuffled = False, rng = rng_zero\<rparr>"

text \<open>The engine and the decoder as their constructors leave them.\<close>

definition bus_empty :: EventBus where
  "bus_empty = \<lparr>published = [], eventQueue = []\<rparr>"

definition decoder_closed :: AudioDecoder where
  "decoder_closed =
     \<lparr>handle = None, isOpen = False, isStreaming = False, totalFrames = 0, currentFrame = 0,
       sampleRate = 44100, channels = 2, streamRunning = False\<rparr>"

definition engine_new :: AudioEngine where
  "engine_new =
     \<lparr>eventBus = bus_empty, queue = empty_queue rng_zero, decoder = decoder_closed,
       device = None, state = Stopped, volume = Fin (8 / 10), currentFrame_a = 0,
       totalFrames_a = 0, repeatMode = Off, currentTrack = None, audioDataCallback = None,
       progressRunning = False, initialized = False\<rparr>"

text \<open>
  A WAV file of two stereo \<open>float\<close> frames after a header of 44 bytes, holding the
  samples 1, 2, 3, 4, and an engine playing it at half volume.
\<close>

definition wav_four :: wav_file where
  "wav_four =
     \<lparr>bytesPerFrame = 8, dataOffset = 44, fileSize = 60, filePos = 44,
       cell_at = (\<lambda>off. Fin (real (off - 40) / 4)),
       patch_at = (\<lambda>off k old. old)\<rparr>"

definition ma_four :: ma_decoder where
  "ma_four =
     \<lparr>backend = Wav wav_four, totalFrameCount = 2, outputSampleRate = 44100,
       outputChannels = 2\<rparr>"

definition engine_playing :: AudioEngine where
  "engine_playing =
     engine_new\<lparr>state := Playing, volume := Fin (1 / 2),
       decoder := decoder_closed\<lparr>handle := Some ma_four, isOpen := True, totalFrames := 2\<rparr>\<rparr>"

text \<open>The same bytes under a header that declares 16-bit stereo: four bytes per frame.\<close>

definition ma_s16 :: ma_decoder where
  "ma_s16 =
     \<lparr>backend = Wav (wav_four\<lparr>bytesPerFrame := 4\<rparr>), totalFrameCount = 4,
       outputSampleRate = 44100, outputChannels = 2\<rparr>"

definition engine_s16 :: AudioEngine where
  "engine_s16 =
     engine_new\<lparr>state := Playing, volume := Fin (1 / 2),
       decoder := decoder_closed\<lparr>handle := Some ma_s16, isOpen := True, totalFrames := 4\<rparr>\<rparr>"

text \<open>The same samples behind a handle that reports no length.\<close>

definition engine_streaming :: AudioEngine where
  "engine_streaming =
     engine_new\<lparr>state := Playing, volume := Fin (1 / 2),
       decoder := decoder_closed\<lparr>handle := Some (ma_four\<lparr>totalFrameCount := 0\<rparr>),
                                  isOpen := True, totalFrames := 0\<rparr>\<rparr>"

definition world_ok :: World where
  "world_ok =
     \<lparr>file_exists = (\<lambda>p. p \<noteq> []),
       decoder_init_file = (\<lambda>p. if p = [] then None else Some ma_four),
       thread_create_ok = True\<rparr>"

text \<open>An initialised engine with the three tracks queued and repeat all.\<close>

definition engine_repeat_all :: AudioEngine where
  "engine_repeat_all =
     engine_new\<lparr>queue := q_files, repeatMode := All_r, device := Some False,
                 initialized := True\<rparr>"

text \<open>Two seconds of audio at 44100 Hz, one second played.\<close>

definition decoder_two_seconds :: AudioDecoder where
  "decoder_two_seconds =
     decoder_closed\<lparr>isOpen := True, totalFrames := 88200, currentFrame := 44100\<rparr>"

definition engine_two_seconds :: AudioEngine where
  "engine_two_seconds =
     engine_new\<lparr>decoder := decoder_two_seconds, totalFrames_a := 88200,
                 currentFrame_a := 44100\<rparr>"

section \<open>Evaluation of the loops on numerals\<close>

lemma size_t_succ_small: "n < 2 ^ 64 - 1 \<Longrightarrow> size_t_succ n = n + 1"
  by (simp add: size_t_succ_def)

lemma reshuffle_loop_numeral:
  "reshuffle_loop (numeral n) order g =
     (case dist_draw (numeral n) g of (j, g') \<Rightarrow>
        reshuffle_loop (pred_numeral n) (swap (numeral n) j order) g')"
  by (simp add: numeral_eq_Suc)

lemma reshuffle_loop_1:
  "reshuffle_loop 1 order g =
     (case dist_draw 1 g of (j, g') \<Rightarrow> reshuffle_loop 0 (swap 1 j order) g')"
  by (simp split: prod.splits)

lemma shuffle_loop_numeral:
  "shuffle_loop (numeral m) n ci order g =
     (if numeral m = ci then shuffle_loop (pred_numeral m) n ci order g
      else (case dist_draw (numeral m) g of (j0, g') \<Rightarrow>
        let j = (if j0 = ci
                 then (let j1 = (j0 + 1) mod n in if j1 = ci then 0 else j1)
                 else j0)
        in shuffle_loop (pred_numeral m) n ci (swap (numeral m) j order) g'))"
  by (simp add: numeral_eq_Suc)

lemma shuffle_loop_1:
  "shuffle_loop 1 n ci order g =
     (if 1 = ci then shuffle_loop 0 n ci order g
      else (case dist_draw 1 g of (j0, g') \<Rightarrow>
        let j = (if j0 = ci
                 then (let j1 = (j0 + 1) mod n in if j1 = ci then 0 else j1)
                 else j0)
        in shuffle_loop 0 n ci (swap 1 j order) g'))"
  by (simp split: prod.splits)

lemmas queue_eval =
  empty_queue_def rng_zero_def createTrack_def track_a_def track_b_def track_c_def
  add_def jumpTo_def remove_id_def remove_index_def erase_def shuffle_def
  visible_index_def vec_at_def track_at_def dist_draw_def swap_def updateShuffleOrder_def
  next_q_def previous_q_def current_def current_id_def size_t_succ_small upt_rec
  reshuffle_loop_numeral reshuffle_loop_1 shuffle_loop_numeral shuffle_loop_1

section \<open>The cursor of the queue\<close>

text \<open>
  C1. Starting from the empty queue, the cursor is meant to stay below the number of
  tracks whenever the queue is not empty, and removing the current entry when it is the
  last one is meant to clamp the cursor. \<open>remove(size_t)\<close> clamps;
  \<open>remove(const std::string&)\<close> does not: after adding two tracks, jumping to the
  second and removing it by its id, one track is left and the cursor is still 1.
\<close>

theorem remove_id_leaves_cursor_past_end:
  "map_sum (\<lambda>f. f) (\<lambda>q. (map id_t (tracks q), currentIndex q))
     (apply_ops (empty_queue rng_zero) [Add track_a, Add track_b, JumpTo 1, RemoveId ''2''])
   = Inr ([''1''], 1)"
  by (simp add: queue_eval)

text \<open>The same operations with the removal by index: the cursor is clamped to 0.\<close>

lemma remove_index_clamps_cursor:
  "map_sum (\<lambda>f. f) (\<lambda>q. (map id_t (tracks q), currentIndex q))
     (apply_ops (empty_queue rng_zero) [Add track_a, Add track_b, JumpTo 1, RemoveIndex 1])
   = Inr ([''1''], 0)"
  by (simp add: queue_eval)

text \<open>
  A second way past the end: the history is not adjusted when a track is removed, so
  \<open>previous()\<close> can pop an index that no longer exists and read the track list
  there.
\<close>

lemma previous_after_remove_reads_past_end:
  "apply_ops (empty_queue rng_zero)
     [Add track_a, Add track_b, Add track_c, JumpTo 2, JumpTo 0, RemoveIndex 2, Previous]
   = Inl OutOfRange"
  by (simp add: queue_eval)

lemma q_shuffled_reachable:
  "apply_ops (empty_queue rng_zero) [Add track_a, Add track_b, Add track_c, Shuffle]
   = Inr q_shuffled"
  by (simp add: queue_eval q_shuffled_def)

lemma q_shuffled_next_reachable:
  "apply_ops (empty_queue rng_zero) [Add track_a, Add track_b, Add track_c, Shuffle, Next]
   = Inr q_shuffled_next"
  by (simp add: queue_eval q_shuffled_next_def)

text \<open>
  C2. Removing a track that is not the current one is meant to leave \<open>current()\<close> on
  the same track. In a shuffled queue it does not: the removal regenerates the shuffle
  order from scratch and nothing pins the current track. In the shuffled queue of three
  tracks with order 0, 2, 1 and the cursor at 0 the current track is ''1''; removing the
  track at natural index 1 (id ''2'') makes the current track ''3''.
\<close>

theorem remove_other_track_changes_current_when_shuffled:
  "current_id q_shuffled = Inr (Some ''1'')
   \<and> map id_t (tracks q_shuffled) ! 1 = ''2''
   \<and> current_id (remove_index 1 q_shuffled) = Inr (Some ''3'')"
  by (simp add: queue_eval q_shuffled_def)

text \<open>
  C3. \<open>shuffle()\<close> is meant to leave \<open>current()\<close> on the track it was on. When the
  queue is already shuffled it does not: the order is reset to the identity before the
  current track's natural index is read from it, so the track pinned is the one whose
  natural index equals the cursor. With order 0, 2, 1 and the cursor at 1 the current
  track is ''3''; after \<open>shuffle()\<close> the cursor is still 1 and the current track is
  ''2''.
\<close>

theorem shuffle_again_changes_current:
  "current_id q_shuffled_next = Inr (Some ''3'')
   \<and> map_sum (\<lambda>f. f) (\<lambda>q. (currentIndex q, current_id q)) (shuffle q_shuffled_next)
       = Inr (1, Inr (Some ''2''))"
  by (simp add: queue_eval q_shuffled_next_def)

section \<open>Removal and shuffle in natural order\<close>

text \<open>What the two operations do keep, for comparison with the three findings above.\<close>

lemma length_erase: "i < length xs \<Longrightarrow> length (erase i xs) = length xs - 1"
  by (simp add: erase_def)

lemma nth_erase:
  assumes "i < length xs" and "k < length xs - 1"
  shows "erase i xs ! k = (if k < i then xs ! k else xs ! Suc k)"
  using assms by (auto simp: erase_def nth_append min_def)

lemma updateShuffleOrder_fields [simp]:
  "tracks (updateShuffleOrder q) = tracks q"
  "currentIndex (updateShuffleOrder q) = currentIndex q"
  "shuffled (updateShuffleOrder q) = shuffled q"
  "history (updateShuffleOrder q) = history q"
  by (simp_all add: updateShuffleOrder_def split: prod.splits)

lemma tracks_remove_index:
  "tracks (remove_index index q)
     = (if index < length (tracks q) then erase index (tracks q) else tracks q)"
  by (simp add: remove_index_def Let_def)

lemma currentIndex_remove_index:
  assumes "index < length (tracks q)"
  shows "currentIndex (remove_index index q)
     = (if index < currentIndex q then currentIndex q - 1
        else if index = currentIndex q \<and> length (tracks q) - 1 \<le> currentIndex q
        then length (tracks q) - 2
        else currentIndex q)"
proof -
  have "erase index (tracks q) = [] \<longleftrightarrow> length (tracks q) = 1"
    using assms length_erase [of index "tracks q"] by (cases "erase index (tracks q)") auto
  then show ?thesis
    using assms by (auto simp: remove_index_def Let_def length_erase)
qed

lemma shuffled_remove_index: "shuffled (remove_index index q) = shuffled q"
  by (simp add: remove_index_def Let_def)

text \<open>\<open>remove(size_t)\<close> keeps the cursor inside a queue it leaves non-empty.\<close>

lemma remove_index_keeps_cursor_in_range:
  assumes "currentIndex q < length (tracks q)"
    and "tracks (remove_index index q) \<noteq> []"
  shows "currentIndex (remove_index index q) < length (tracks (remove_index index q))"
proof (cases "index < length (tracks q)")
  case False
  then show ?thesis using assms(1) by (simp add: remove_index_def)
next
  case True
  have "length (erase index (tracks q)) = length (tracks q) - 1"
    using True by (rule length_erase)
  moreover have "erase index (tracks q) \<noteq> []"
    using assms(2) True by (simp add: tracks_remove_index)
  ultimately have "2 \<le> length (tracks q)"
    by (cases "erase index (tracks q)") auto
  then show ?thesis
    using True assms(1)
    by (auto simp: tracks_remove_index currentIndex_remove_index length_erase)
qed

text \<open>In natural order, removing another track leaves the current track in place.\<close>

lemma remove_index_keeps_current_unshuffled:
  assumes "\<not> shuffled q" and "currentIndex q < length (tracks q)"
    and "index < length (tracks q)" and "index \<noteq> currentIndex q"
  shows "current (remove_index index q) = current q"
proof -
  let ?c = "currentIndex (remove_index index q)"
  have l: "length (erase index (tracks q)) = length (tracks q) - 1"
    using assms(3) by (rule length_erase)
  have two: "2 \<le> length (tracks q)"
    using assms(2,3,4) by simp
  have c: "?c = (if index < currentIndex q then currentIndex q - 1 else currentIndex q)"
    using assms(3,4) by (simp add: currentIndex_remove_index)
  have b: "?c < length (tracks q) - 1"
    using c assms(2,3,4) by auto
  have "erase index (tracks q) ! ?c = tracks q ! currentIndex q"
    using assms(3,4) b c by (auto simp: nth_erase)
  moreover have "erase index (tracks q) \<noteq> []" "tracks q \<noteq> []"
    using l two by auto
  ultimately show ?thesis
    using assms(1,2,3) b l
    by (simp add: current_def track_at_def visible_index_def vec_at_def
        tracks_remove_index shuffled_remove_index)
qed


lemma swap_props:
  assumes "i < length xs" and "j < length xs"
  shows "length (swap i j xs) = length xs" and "set (swap i j xs) = set xs"
  using assms by (simp_all add: swap_def set_swap)

lemma shuffle_loop_permutes:
  assumes "length order = n" and "k < n"
    and "shuffle_loop k n ci order g = (order', g')"
  shows "length order' = n \<and> set order' = set order"
  using assms
proof (induction k arbitrary: order g)
  case 0
  then show ?case by simp
next
  case (Suc k)
  show ?case
  proof (cases "Suc k = ci")
    case True
    have "shuffle_loop k n ci order g = (order', g')"
      using Suc.prems(3) True [symmetric] by simp
    then show ?thesis
      using Suc.IH [of order g] Suc.prems(1,2) by simp
  next
    case False
    define j0 where "j0 = g 0 mod (Suc k + 1)"
    define j where "j = (if j0 = ci then (if (j0 + 1) mod n = ci then 0 else (j0 + 1) mod n) else j0)"
    have "j0 \<le> Suc k" unfolding j0_def by (simp add: less_Suc_eq_le [symmetric])
    then have "j0 < n" using Suc.prems(2) by simp
    moreover have "(j0 + 1) mod n < n" "0 < n" using Suc.prems(2) by simp_all
    ultimately have jn: "j < n" unfolding j_def by simp
    have step: "shuffle_loop k n ci (swap (Suc k) j order) (\<lambda>m. g (Suc m)) = (order', g')"
      using Suc.prems(3) False
      by (auto simp add: dist_draw_def j_def j0_def Let_def split: if_splits)
    have sw: "length (swap (Suc k) j order) = n" "set (swap (Suc k) j order) = set order"
      using swap_props [of "Suc k" order j] Suc.prems(1,2) jn by simp_all
    show ?thesis
      using Suc.IH [OF sw(1) _ step] Suc.prems(2) sw(2) by simp
  qed
qed

lemma find_pos_member:
  assumes "x \<in> set xs"
  shows "\<exists>i. find_pos (\<lambda>y. y = x) xs = Some i \<and> i < length xs \<and> xs ! i = x"
  using assms
proof (induction xs)
  case Nil
  then show ?case by simp
next
  case (Cons a xs)
  show ?case
  proof (cases "a = x")
    case True
    then show ?thesis by simp
  next
    case False
    then have "x \<in> set xs" using Cons.prems by simp
    then obtain i where "find_pos (\<lambda>y. y = x) xs = Some i" "i < length xs" "xs ! i = x"
      using Cons.IH by blast
    then show ?thesis using False by simp
  qed
qed

text \<open>
  \<open>shuffle()\<close> on a queue in natural order, with the cursor on a track: it returns,
  the cursor stays and the current track is the same.
\<close>

lemma shuffle_pins_current_unshuffled:
  assumes "\<not> shuffled q" and "currentIndex q < length (tracks q)"
  shows "\<exists>q'. shuffle q = Inr q' \<and> shuffled q' \<and> currentIndex q' = currentIndex q
           \<and> current q' = current q"
proof -
  let ?n = "length (tracks q)" and ?ci = "currentIndex q"
  have ne: "tracks q \<noteq> []" using assms(2) by auto
  obtain order g' where
    loop: "shuffle_loop (?n - 1) ?n ?ci [0..<?n] (rng q) = (order, g')"
    by (cases "shuffle_loop (?n - 1) ?n ?ci [0..<?n] (rng q)") auto
  have p: "length order = ?n \<and> set order = set [0..<?n]"
    using shuffle_loop_permutes [OF _ _ loop] assms(2) by simp
  have ci: "?ci \<in> set order" using p assms(2) by simp
  obtain it where it: "find_pos (\<lambda>y. y = ?ci) order = Some it" "it < length order"
    "order ! it = ?ci"
    using find_pos_member [OF ci] by blast
  have pin: "swap it ?ci order ! ?ci = ?ci"
    using it p assms(2) by (simp add: swap_def)
  have len: "length (swap it ?ci order) = ?n"
    using it p assms(2) by (simp add: swap_def)
  have s: "shuffle q = Inr (q\<lparr>shuffleOrder := swap it ?ci order, rng := g', shuffled := True\<rparr>)"
    using ne assms loop it p by (simp add: shuffle_def visible_index_def Let_def)
  have cur: "current (q\<lparr>shuffleOrder := swap it ?ci order, rng := g', shuffled := True\<rparr>) = current q"
    using ne assms pin len
    by (simp add: current_def track_at_def visible_index_def vec_at_def)
  show ?thesis using s cur by simp
qed

section \<open>next() at the end of the queue\<close>

text \<open>
  C4, as stated: at the last position \<open>next()\<close> returns no track and leaves the whole
  queue unchanged. It fails on the queue of one track: the history is empty before the
  call and holds the cursor afterwards.
\<close>

theorem last_position_next_pushes_history:
  "tracks q_single \<noteq> []
   \<and> length (tracks q_single) \<le> size_t_succ (currentIndex q_single)
   \<and> next_q q_single \<noteq> Inr (None, q_single)"
  by (simp add: queue_eval q_single_def)

text \<open>
  C4, amended: on a non-empty queue whose cursor is at the last position, \<open>next()\<close>
  returns no track and leaves the tracks, the cursor, the shuffle order and the shuffle
  flag unchanged; the history gains one entry, the cursor.
\<close>

theorem next_at_end:
  assumes "tracks q \<noteq> []"
    and "length (tracks q) \<le> size_t_succ (currentIndex q)"
  shows "next_q q = Inr (None, q\<lparr>history := history q @ [currentIndex q]\<rparr>)"
  using assms by (simp add: next_q_def)

theorem next_at_end_witness:
  "tracks q_single \<noteq> []
   \<and> length (tracks q_single) \<le> size_t_succ (currentIndex q_single)
   \<and> next_q q_single = Inr (None, q_single\<lparr>history := [0]\<rparr>)"
  using next_at_end [of q_single] by (simp add: q_single_def size_t_succ_small)

section \<open>History\<close>

lemma apply_ops_append:
  "apply_ops q (xs @ ys) =
     (case apply_ops q xs of Inl f \<Rightarrow> Inl f | Inr q' \<Rightarrow> apply_ops q' ys)"
  by (induction xs arbitrary: q) (auto split: sum.splits)

lemma track_at_history [simp]: "track_at (q\<lparr>history := h\<rparr>) i = track_at q i"
  by (simp add: track_at_def visible_index_def split: sum.splits)

lemma track_at_currentIndex [simp]: "track_at (q\<lparr>currentIndex := c\<rparr>) i = track_at q i"
  by (simp add: track_at_def visible_index_def split: sum.splits)

lemma track_at_ok:
  assumes "queue_ok q" and "i < length (tracks q)"
  shows "\<exists>t. track_at q i = Inr t"
  using assms by (auto simp: queue_ok_def track_at_def visible_index_def vec_at_def)

text \<open>On a non-empty queue \<open>next()\<close> always pushes the cursor, whether it advances or not.\<close>

lemma next_q_step:
  assumes "queue_ok q" and "tracks q \<noteq> []"
  shows "\<exists>t c. c < length (tracks q) \<and>
           next_q q = Inr (t, q\<lparr>history := history q @ [currentIndex q], currentIndex := c\<rparr>)"
proof (cases "length (tracks q) \<le> size_t_succ (currentIndex q)")
  case True
  have "currentIndex q < length (tracks q)"
    using assms by (simp add: queue_ok_def)
  moreover have "next_q q =
      Inr (None, q\<lparr>history := history q @ [currentIndex q], currentIndex := currentIndex q\<rparr>)"
    using True assms(2) by (simp add: next_q_def Let_def)
  ultimately show ?thesis by blast
next
  case False
  then have c: "size_t_succ (currentIndex q) < length (tracks q)" by simp
  obtain t where "track_at q (size_t_succ (currentIndex q)) = Inr t"
    using track_at_ok [OF assms(1) c] by blast
  then have "next_q q =
      Inr (Some t, q\<lparr>history := history q @ [currentIndex q],
                      currentIndex := size_t_succ (currentIndex q)\<rparr>)"
    using False assms(2) by (simp add: next_q_def Let_def)
  with c show ?thesis by blast
qed

text \<open>\<open>previous()\<close> pops what \<open>next()\<close> pushed.\<close>

lemma previous_q_undo:
  assumes "queue_ok q" and "tracks q \<noteq> []"
  shows "\<exists>t. previous_q (q\<lparr>history := history q @ [currentIndex q], currentIndex := c\<rparr>)
              = Inr (t, q)"
proof -
  have "currentIndex q < length (tracks q)"
    using assms by (simp add: queue_ok_def)
  then obtain t where "track_at q (currentIndex q) = Inr t"
    using track_at_ok [OF assms(1)] by blast
  then show ?thesis
    using assms(2) by (simp add: previous_q_def Let_def)
qed

lemma next_then_previous:
  assumes "queue_ok q"
  shows "\<exists>q1. apply_op q Next = Inr q1 \<and> queue_ok q1 \<and> apply_op q1 Previous = Inr q"
proof (cases "tracks q = []")
  case True
  then show ?thesis using assms by (simp add: next_q_def previous_q_def)
next
  case False
  obtain t c where c: "c < length (tracks q)"
    and n: "next_q q = Inr (t, q\<lparr>history := history q @ [currentIndex q], currentIndex := c\<rparr>)"
    using next_q_step [OF assms False] by blast
  obtain t' where p:
    "previous_q (q\<lparr>history := history q @ [currentIndex q], currentIndex := c\<rparr>) = Inr (t', q)"
    using previous_q_undo [OF assms False] by blast
  have "queue_ok (q\<lparr>history := history q @ [currentIndex q], currentIndex := c\<rparr>)"
    using assms c by (simp add: queue_ok_def)
  with n p show ?thesis by simp
qed

text \<open>
  C6. From every queue state whose cursor and shuffle order are within bounds, \<open>n\<close>
  calls of \<open>next()\<close> followed by \<open>n\<close> calls of \<open>previous()\<close> all return and leave
  the queue exactly as it was: the same tracks, cursor, shuffle order and history, hence
  the same current track at the same natural position.
\<close>

theorem history_round_trip:
  assumes "queue_ok q"
  shows "apply_ops q (replicate n Next @ replicate n Previous) = Inr q"
  using assms
proof (induction n arbitrary: q)
  case 0
  then show ?case by simp
next
  case (Suc n)
  obtain q1 where q1: "apply_op q Next = Inr q1" "queue_ok q1" "apply_op q1 Previous = Inr q"
    using next_then_previous [OF Suc.prems] by blast
  have "replicate (Suc n) Next @ replicate (Suc n) Previous
          = Next # (replicate n Next @ replicate n Previous) @ [Previous]"
    by (simp add: replicate_append_same)
  moreover have "apply_ops q1 ((replicate n Next @ replicate n Previous) @ [Previous]) = Inr q"
    by (subst apply_ops_append) (simp add: Suc.IH [OF q1(2)] q1(3) del: apply_op.simps)
  ultimately show ?case
    using q1(1) by (simp del: apply_op.simps)
qed

theorem history_round_trip_witness:
  "queue_ok q_shuffled_next
   \<and> apply_ops q_shuffled_next [Next, Next, Next, Previous, Previous, Previous]
       = Inr q_shuffled_next"
  using history_round_trip [of q_shuffled_next 3]
  by (simp add: queue_ok_def q_shuffled_next_def numeral_3_eq_3 del: apply_ops.simps)

section \<open>The audio callback\<close>

lemmas engine_eval =
  bus_empty_def decoder_closed_def engine_new_def wav_four_def ma_four_def ma_s16_def
  engine_playing_def engine_s16_def engine_streaming_def q_three_end_def
  q_three_wrapped_def q_three_def decoder_two_seconds_def engine_two_seconds_def

lemmas callback_eval =
  audioCallback_def audioCallback_fill_def readFrames_def ma_decoder_read_pcm_frames_def
  fread_into_def write_at_def scale_prefix_def onTrackEnded_def next_q_def empty_queue_def
  publishAsync_def Let_def

text \<open>
  C9. While the state is not Playing, or no decoder session is open, the callback
  overwrites all \<open>frameCount\<close> stereo frames of the output buffer with zeros, for
  every frame count the buffer can hold, and returns with the engine, its decoder
  included, untouched.
\<close>

theorem silence_on_idle:
  assumes "state e \<noteq> Playing \<or> \<not> isOpen (decoder e)"
    and "frameCount * 2 \<le> length output"
  shows "audioCallback output frameCount e =
           Inr (replicate (frameCount * 2) (Fin 0) @ drop (frameCount * 2) output, e)"
  using assms by (auto simp: audioCallback_def audioCallback_fill_def write_at_def)

theorem silence_on_idle_witness:
  "state engine_new = Stopped
   \<and> 2 * 2 \<le> length [Fin 7, Fin 7, Fin 7, Fin 7, Fin 7]
   \<and> audioCallback [Fin 7, Fin 7, Fin 7, Fin 7, Fin 7] 2 engine_new
       = Inr ([Fin 0, Fin 0, Fin 0, Fin 0, Fin 7], engine_new)"
  using silence_on_idle [of engine_new 2 "[Fin 7, Fin 7, Fin 7, Fin 7, Fin 7]"]
  by (simp add: engine_eval numeral_eq_Suc)

text \<open>What a read leaves behind, whatever the file.\<close>

lemma fread_into_length:
  assumes "fread_into w n buf = Inr out"
  shows "length out = length buf"
proof -
  have n: "n \<le> 4 * length buf"
    using assms by (auto simp: fread_into_def split: if_splits)
  have "n div 4 + (if n mod 4 = 0 then 0 else 1) \<le> length buf"
    using n by (auto simp: Suc_le_eq) presburger
  then show ?thesis
    using assms n by (auto simp: fread_into_def Let_def split: if_splits)
qed

lemma read_pcm_bounds:
  assumes "ma_decoder_read_pcm_frames m buf frameCount = Inr (k, out, m')"
  shows "k \<le> frameCount \<and> length out = length buf
         \<and> totalFrameCount m' = totalFrameCount m"
proof (cases "backend m")
  case (Wav w)
  let ?B = "min ((frameCount * bytesPerFrame w) mod 2 ^ 64) (fileSize w - filePos w)"
  from assms Wav obtain pos: "bytesPerFrame w \<noteq> 0"
    and f: "fread_into w ?B buf = Inr out" and k: "k = ?B div bytesPerFrame w"
    and m': "m' = m\<lparr>backend := Wav (w\<lparr>filePos := filePos w + ?B\<rparr>)\<rparr>"
    by (auto simp: ma_decoder_read_pcm_frames_def Let_def split: sum.splits if_splits)
  have "?B \<le> frameCount * bytesPerFrame w"
    by (rule order_trans [OF min.cobounded1]) simp
  then have "?B div bytesPerFrame w \<le> frameCount * bytesPerFrame w div bytesPerFrame w"
    by (rule div_le_mono)
  then have "k \<le> frameCount" using k pos by simp
  then show ?thesis using fread_into_length [OF f] m' by simp
next
  case (Snd f)
  then show ?thesis
    using assms
    by (auto simp: ma_decoder_read_pcm_frames_def Let_def write_at_def
        split: sum.splits if_splits)
qed





lemma readFrames_bounds:
  assumes "readFrames output frameCount d = Inr (k, out1, d1)"
  shows "k \<le> frameCount \<and> length out1 = length output
         \<and> totalFrames d1 = totalFrames d"
proof (cases "handle d")
  case None
  then show ?thesis using assms by (simp add: readFrames_def)
next
  case (Some m)
  show ?thesis
  proof (cases "isOpen d")
    case False
    then show ?thesis using assms Some by (simp add: readFrames_def)
  next
    case True
    then obtain m' where r: "ma_decoder_read_pcm_frames m output frameCount = Inr (k, out1, m')"
      and d1: "d1 = d\<lparr>handle := Some m', currentFrame := currentFrame d + of_nat k\<rparr>"
      using assms Some by (auto simp: readFrames_def split: sum.splits)
    show ?thesis using read_pcm_bounds [OF r] d1 by simp
  qed
qed

lemma fill_playing:
  assumes "state e = Playing" and "isOpen (decoder e)"
    and "frameCount * 2 \<le> length output"
    and r: "readFrames output frameCount (decoder e) = Inr (k, out1, d1)"
  shows "\<exists>e2. audioCallback_fill output frameCount e =
           Inr (True,
                map (\<lambda>x. fmul x (volume e)) (take (k * 2) out1)
                  @ replicate ((frameCount - k) * 2) (Fin 0) @ drop (frameCount * 2) out1,
                e2)
           \<and> decoder e2 = d1 \<and> queue e2 = queue e"
proof -
  note b = readFrames_bounds [OF r]
  have k: "k \<le> frameCount" and len: "length out1 = length output" using b by simp_all
  have k2: "k * 2 \<le> length out1" using k len assms(3) by simp
  have l2: "length (scale_prefix (k * 2) (volume e) out1) = length out1"
    by (simp add: scale_prefix_def)
  have t2: "take (k * 2) (scale_prefix (k * 2) (volume e) out1)
              = map (\<lambda>x. fmul x (volume e)) (take (k * 2) out1)"
    using k2 by (simp add: scale_prefix_def)
  have d2: "drop (frameCount * 2) (scale_prefix (k * 2) (volume e) out1)
              = drop (frameCount * 2) out1"
    using k k2 by (simp add: scale_prefix_def)
  show ?thesis
  proof (cases "k < frameCount")
    case True
    have "k * 2 + (frameCount - k) * 2 = frameCount * 2" using True by simp
    then have "write_at (scale_prefix (k * 2) (volume e) out1) (k * 2)
                 (replicate ((frameCount - k) * 2) (Fin 0))
               = Inr (map (\<lambda>x. fmul x (volume e)) (take (k * 2) out1)
                  @ replicate ((frameCount - k) * 2) (Fin 0) @ drop (frameCount * 2) out1)"
      using l2 t2 d2 len assms(3) by (simp add: write_at_def)
    then show ?thesis
      using assms(1,2) r True
      by (auto simp add: audioCallback_fill_def Let_def split: option.splits)
  next
    case False
    then have e: "k = frameCount" using k by simp
    have "scale_prefix (k * 2) (volume e) out1
          = map (\<lambda>x. fmul x (volume e)) (take (k * 2) out1) @ drop (frameCount * 2) out1"
      using e by (simp add: scale_prefix_def)
    then show ?thesis
      using assms(1,2) r False e
      by (auto simp add: audioCallback_fill_def Let_def split: option.splits)
  qed
qed




text \<open>
  C7. While the state is Playing and the open decoder reports a total of 0 frames, every
  call of the audio callback whose read stays inside the output buffer ends by running
  the end-of-track handling, whatever it read: the test
  \<open>currentFrame >= totalFrames\<close> cannot fail.
\<close>

theorem totalFrames_zero_ends_track_every_callback:
  assumes "state e = Playing" and "isOpen (decoder e)" and "totalFrames (decoder e) = 0"
    and "frameCount * 2 \<le> length output"
    and "readFrames output frameCount (decoder e) = Inr r"
  shows "\<exists>out e2. audioCallback_fill output frameCount e = Inr (True, out, e2)
           \<and> audioCallback output frameCount e =
               (case onTrackEnded e2 of Inl f \<Rightarrow> Inl f | Inr e3 \<Rightarrow> Inr (out, e3))"
proof -
  obtain k out1 d1 where r: "readFrames output frameCount (decoder e) = Inr (k, out1, d1)"
    using assms(5) by (cases r) auto
  have t: "totalFrames d1 = totalFrames (decoder e)"
    using readFrames_bounds [OF r] by simp
  obtain e2 where f: "audioCallback_fill output frameCount e =
      Inr (True, map (\<lambda>x. fmul x (volume e)) (take (k * 2) out1)
                   @ replicate ((frameCount - k) * 2) (Fin 0) @ drop (frameCount * 2) out1, e2)"
    and d: "decoder e2 = d1"
    using fill_playing [OF assms(1,2,4) r] by blast
  have "totalFrames (decoder e2) = 0" using d t assms(3) by simp
  then show ?thesis using f by (simp add: audioCallback_def)
qed

theorem totalFrames_zero_witness:
  "state engine_streaming = Playing \<and> isOpen (decoder engine_streaming)
   \<and> totalFrames (decoder engine_streaming) = 0
   \<and> 1 * 2 \<le> length [Fin 7, Fin 7]
   \<and> (\<exists>r. readFrames [Fin 7, Fin 7] 1 (decoder engine_streaming) = Inr r)
   \<and> (\<exists>out e2. audioCallback_fill [Fin 7, Fin 7] 1 engine_streaming = Inr (True, out, e2)
           \<and> audioCallback [Fin 7, Fin 7] 1 engine_streaming =
               (case onTrackEnded e2 of Inl f \<Rightarrow> Inl f | Inr e3 \<Rightarrow> Inr (out, e3)))"
proof -
  have h: "state engine_streaming = Playing" "isOpen (decoder engine_streaming)"
    "totalFrames (decoder engine_streaming) = 0" "1 * 2 \<le> length [Fin 7, Fin 7]"
    by (simp_all add: engine_eval)
  obtain r where r: "readFrames [Fin 7, Fin 7] 1 (decoder engine_streaming) = Inr r"
    by (simp add: engine_eval readFrames_def ma_decoder_read_pcm_frames_def fread_into_def
        Let_def)
  show ?thesis
    using totalFrames_zero_ends_track_every_callback [OF h r] h r by blast
qed

text \<open>
  With repeat off and an empty queue, the first callback on such a stream delivers one
  frame, leaves eight bytes of the file unread and stops the playback.
\<close>

lemma streaming_track_stops_at_first_callback:
  "map_sum (\<lambda>f. f)
     (\<lambda>(out, e). (out, state e, eventQueue (eventBus e),
                  map_option (\<lambda>m. case backend m of Wav w \<Rightarrow> fileSize w - filePos w
                                                    | Snd f \<Rightarrow> 0)
                    (handle (decoder e))))
     (audioCallback [Fin 7, Fin 7] 1 engine_streaming)
   = Inr ([Fin (1 / 2), Fin 1], Stopped, [(PlaybackStopped, Monostate)], Some 8)"
  by (simp add: engine_eval callback_eval upt_rec)

text \<open>A read that leaves the buffer is the callback's fault too.\<close>

lemma callback_fault_of_read:
  assumes "state e = Playing" and "isOpen (decoder e)"
    and "readFrames output frameCount (decoder e) = Inl f"
  shows "audioCallback output frameCount e = Inl f"
  using assms by (simp add: audioCallback_def audioCallback_fill_def)

section \<open>Volume\<close>





section \<open>The end of the queue\<close>

text \<open>Evaluation of \<open>playNext_times\<close> on numerals.\<close>

lemma playNext_times_numeral:
  "playNext_times w (numeral n) e =
     (case playNext w e of Inl f \<Rightarrow> Inl f | Inr (r, e') \<Rightarrow> playNext_times w (pred_numeral n) e')"
  by (simp add: numeral_eq_Suc)

lemma playNext_times_1:
  "playNext_times w 1 e =
     (case playNext w e of Inl f \<Rightarrow> Inl f | Inr (r, e') \<Rightarrow> playNext_times w 0 e')"
  by (simp split: sum.splits)

lemmas play_eval =
  playNext_def playTrack_def stop_def open_file_def openWithMiniaudio_def openUrl_def
  close_def ma_device_stop_def ma_device_start_def startProgressTimer_def
  stopProgressTimer_def publish_def publishAsync_def next_q_def track_at_def
  visible_index_def vec_at_def size_t_succ_small jumpTo_def current_def onTrackEnded_def
  playNext_times_numeral playNext_times_1 Let_def

lemmas play_fixtures =
  engine_repeat_all_def engine_new_def q_files_def world_ok_def track_file_def
  createTrack_def bus_empty_def decoder_closed_def ma_four_def wav_four_def rng_zero_def
  empty_queue_def

text \<open>
  C5. With three tracks, the cursor at 0 and repeat all, the third advance is meant to
  yield track ''1'' again. Two calls of \<open>playNext()\<close> play track ''3'' at index 2; the
  third finds no next track and calls \<open>stop()\<close> without looking at the repeat mode:
  the engine is Stopped, the cursor still 2 and no track is loaded. The end-of-track
  handling does look at the repeat mode, but all it does is move the cursor to 0 and
  queue a track-changed event: the engine goes on in state Playing with track ''3''
  loaded.
\<close>

theorem playNext_stops_at_end_under_repeat_all:
  "map_sum (\<lambda>f. f) engine_view (playNext_times world_ok 2 engine_repeat_all)
     = Inr (Playing, 2, Some ''3'')
   \<and> map_sum (\<lambda>f. f) engine_view (playNext_times world_ok 3 engine_repeat_all)
     = Inr (Stopped, 2, None)
   \<and> map_sum (\<lambda>f. f) (\<lambda>e. (engine_view e, eventQueue (eventBus e)))
        (case playNext_times world_ok 2 engine_repeat_all of
           Inl f \<Rightarrow> Inl f
         | Inr e \<Rightarrow> onTrackEnded e)
     = Inr ((Playing, 0, Some ''3''), [(TrackChanged, TrackData (track_file ''1''))])"
  by (simp add: engine_view_def play_eval play_fixtures)

lemma next_q_three_end:
  "next_q q_three_end = Inr (None, q_three_end\<lparr>history := [0, 1, 2]\<rparr>)"
  by (simp add: queue_eval engine_eval)

lemma state_stop: "state (snd (stop e)) = Stopped"
  by (simp add: stop_def stopProgressTimer_def Let_def)

text \<open>
  What does hold at the end of the queue: from the cursor at 0 two calls of \<open>next()\<close>
  reach index 2 and a third returns no track; with repeat off the engine then ends in
  Stopped, through \<open>playNext()\<close> and through the end-of-track handling alike; with
  repeat all the end-of-track handling moves the cursor back to 0 and queues a
  track-changed event for track ''1''.
\<close>

lemma end_of_track_handling_at_queue_end:
  "apply_ops q_three [Next, Next] = Inr q_three_end
   \<and> currentIndex q_three_end = 2
   \<and> map_sum (\<lambda>f. f) fst (next_q q_three_end) = Inr None
   \<and> map_sum (\<lambda>f. f) (\<lambda>(r, e'). (r, state e'))
        (playNext w (e\<lparr>queue := q_three_end, repeatMode := Off\<rparr>)) = Inr (Ok, Stopped)
   \<and> map_sum (\<lambda>f. f) state (onTrackEnded (e\<lparr>queue := q_three_end, repeatMode := Off\<rparr>))
       = Inr Stopped
   \<and> map_sum (\<lambda>f. f)
        (\<lambda>e'. (currentIndex (queue e'), current_id (queue e'), eventQueue (eventBus e')))
        (onTrackEnded (e\<lparr>queue := q_three_end, repeatMode := All_r\<rparr>))
       = Inr (0, Inr (Some ''1''), eventQueue (eventBus e) @ [(TrackChanged, TrackData track_a)])"
proof -
  have 1: "apply_ops q_three [Next, Next] = Inr q_three_end"
    by (simp add: queue_eval engine_eval)
  have 2: "currentIndex q_three_end = 2"
    by (simp add: engine_eval)
  have 3: "map_sum (\<lambda>f. f) fst (next_q q_three_end) = Inr None"
    by (simp add: next_q_three_end)
  have 4: "map_sum (\<lambda>f. f) (\<lambda>(r, e'). (r, state e'))
        (playNext w (e\<lparr>queue := q_three_end, repeatMode := Off\<rparr>)) = Inr (Ok, Stopped)"
    by (simp add: playNext_def next_q_three_end state_stop)
  have 5: "map_sum (\<lambda>f. f) state (onTrackEnded (e\<lparr>queue := q_three_end, repeatMode := Off\<rparr>))
       = Inr Stopped"
    by (simp add: onTrackEnded_def next_q_three_end)
  have j: "jumpTo 0 (q_three_end\<lparr>history := [0, 1, 2]\<rparr>) = q_three_wrapped"
    by (simp add: jumpTo_def engine_eval)
  have c: "current q_three_wrapped = Inr (Some track_a)"
    by (simp add: current_def track_at_def visible_index_def vec_at_def engine_eval)
  have t: "tracks (q_three_end\<lparr>history := [0, 1, 2]\<rparr>) \<noteq> []"
    by (simp add: engine_eval)
  have i: "currentIndex q_three_wrapped = 0" "id_t track_a = ''1''"
    by (simp_all add: engine_eval track_a_def createTrack_def)
  have 6: "map_sum (\<lambda>f. f)
        (\<lambda>e'. (currentIndex (queue e'), current_id (queue e'), eventQueue (eventBus e')))
        (onTrackEnded (e\<lparr>queue := q_three_end, repeatMode := All_r\<rparr>))
       = Inr (0, Inr (Some ''1''), eventQueue (eventBus e) @ [(TrackChanged, TrackData track_a)])"
    using j c t i
    by (simp add: onTrackEnded_def next_q_three_end current_id_def publishAsync_def Let_def)
  from 1 2 3 4 5 6 show ?thesis by blast
qed

text \<open>
  \<open>playNext()\<close> itself does not read the repeat mode: at the end of the queue it
  stops with repeat all as well. The wrap-around lives in the end-of-track handling.
\<close>

lemma playNext_ignores_repeatMode:
  "map_sum (\<lambda>f. f) (\<lambda>(r, e'). (r, state e', currentIndex (queue e')))
     (playNext w (e\<lparr>queue := q_three_end, repeatMode := All_r\<rparr>))
   = Inr (Ok, Stopped, 2)"
proof -
  have "queue (snd (stop x)) = queue x" for x
    by (simp add: stop_def stopProgressTimer_def Let_def)
  moreover have "currentIndex (q_three_end\<lparr>history := [0, 1, 2]\<rparr>) = 2"
    by (simp add: engine_eval)
  ultimately show ?thesis
    by (simp add: playNext_def next_q_three_end state_stop)
qed


section \<open>Duration and position\<close>

lemma unat_ucast_sampleRate: "unat (ucast (s :: 32 word) :: 64 word) = unat s"
proof -
  have "unat s < 2 ^ 32" using unsigned_less [of s] by simp
  then have "unat s < 2 ^ 64" by simp
  then show ?thesis
    by (simp add: unsigned_ucast_eq take_bit_nat_eq_self)
qed

lemma ucast_sampleRate_eq_0: "(ucast (s :: 32 word) :: 64 word) = 0 \<longleftrightarrow> s = 0"
proof -
  have "(ucast s :: 64 word) = 0 \<longleftrightarrow> unat (ucast s :: 64 word) = 0"
    by (simp add: unat_eq_zero)
  also have "\<dots> \<longleftrightarrow> s = 0"
    by (simp only: unat_ucast_sampleRate unat_eq_zero)
  finally show ?thesis .
qed

lemma Duration_small:
  assumes "unat w < 2 ^ 63"
  shows "Duration w = int (unat w)"
proof -
  have "int (unat w) < int (2 ^ 63)" using assms by (simp only: of_nat_less_iff)
  then have "uint w < 2 ^ 63" by simp
  moreover have "- (2 ^ 63) \<le> uint w"
    by (rule order_trans [of _ 0]) simp_all
  ultimately have "signed_take_bit 63 (uint w) = uint w"
    by (simp add: signed_take_bit_int_eq_self)
  then show ?thesis
    by (simp add: Duration_def sint_uint)
qed

lemma ms_exact:
  assumes "unat frames * 1000 < 2 ^ 63"
  shows "Duration (frames * 1000 div ucast (s :: 32 word)) = int (unat frames * 1000 div unat s)"
proof -
  have u: "unat (1000 :: 64 word) = 1000" by simp
  have "unat frames * unat (1000 :: 64 word) < 2 ^ LENGTH(64)"
    unfolding u using assms by simp
  then have "unat (frames * 1000) = unat frames * unat (1000 :: 64 word)"
    by (rule unat_mult_lem [THEN iffD1])
  then have m: "unat (frames * 1000) = unat frames * 1000"
    unfolding u .
  have d: "unat (frames * 1000 div ucast s) = unat frames * 1000 div unat s"
    by (simp add: unat_div m unat_ucast_sampleRate)
  have "unat frames * 1000 div unat s \<le> unat frames * 1000"
    by (rule div_le_dividend)
  then have "unat frames * 1000 div unat s < 2 ^ 63"
    using assms by (rule le_less_trans)
  then have "unat (frames * 1000 div ucast s) < 2 ^ 63"
    by (simp only: d)
  then show ?thesis using d by (simp add: Duration_small)
qed

text \<open>
  C10. The four queries \<open>AudioDecoder::duration\<close>, \<open>AudioDecoder::position\<close>,
  \<open>AudioEngine::duration\<close> and \<open>AudioEngine::position\<close> return 0 when the sample
  rate is 0 and otherwise the 64-bit unsigned quotient of \<open>frames * 1000\<close> by the sample
  rate, in every state; none of them divides by zero. While \<open>frames * 1000\<close> stays
  below \<open>2 ^ 63\<close> that quotient is the exact number of milliseconds.
\<close>

theorem duration_position_guarded:
  "decoder_duration d
     = Inr (if sampleRate d = 0 then 0
            else Duration (totalFrames d * 1000 div ucast (sampleRate d)))
   \<and> decoder_position d
     = Inr (if sampleRate d = 0 then 0
            else Duration (currentFrame d * 1000 div ucast (sampleRate d)))
   \<and> engine_duration e
     = Inr (if sampleRate (decoder e) = 0 then 0
            else Duration (totalFrames_a e * 1000 div ucast (sampleRate (decoder e))))
   \<and> engine_position e
     = Inr (if sampleRate (decoder e) = 0 then 0
            else Duration (currentFrame_a e * 1000 div ucast (sampleRate (decoder e))))
   \<and> (unat (totalFrames d) * 1000 < 2 ^ 63 \<longrightarrow>
        decoder_duration d
          = Inr (if sampleRate d = 0 then 0
                 else int (unat (totalFrames d) * 1000 div unat (sampleRate d))))
   \<and> (unat (currentFrame d) * 1000 < 2 ^ 63 \<longrightarrow>
        decoder_position d
          = Inr (if sampleRate d = 0 then 0
                 else int (unat (currentFrame d) * 1000 div unat (sampleRate d))))
   \<and> (unat (totalFrames_a e) * 1000 < 2 ^ 63 \<longrightarrow>
        engine_duration e
          = Inr (if sampleRate (decoder e) = 0 then 0
                 else int (unat (totalFrames_a e) * 1000 div unat (sampleRate (decoder e)))))
   \<and> (unat (currentFrame_a e) * 1000 < 2 ^ 63 \<longrightarrow>
        engine_position e
          = Inr (if sampleRate (decoder e) = 0 then 0
                 else int (unat (currentFrame_a e) * 1000 div unat (sampleRate (decoder e)))))"
proof -
  have g: "udiv64 a (ucast s) = Inr (a div ucast s)" if "s \<noteq> 0" for a and s :: "32 word"
    using that by (simp add: udiv64_def ucast_sampleRate_eq_0)
  have z: "Duration 0 = 0"
    by (simp add: Duration_def)
  have 1: "decoder_duration d
     = Inr (if sampleRate d = 0 then 0
            else Duration (totalFrames d * 1000 div ucast (sampleRate d)))"
    by (simp add: decoder_duration_def g z)
  have 2: "decoder_position d
     = Inr (if sampleRate d = 0 then 0
            else Duration (currentFrame d * 1000 div ucast (sampleRate d)))"
    by (simp add: decoder_position_def g z)
  have 3: "engine_duration e
     = Inr (if sampleRate (decoder e) = 0 then 0
            else Duration (totalFrames_a e * 1000 div ucast (sampleRate (decoder e))))"
    by (simp add: engine_duration_def g z)
  have 4: "engine_position e
     = Inr (if sampleRate (decoder e) = 0 then 0
            else Duration (currentFrame_a e * 1000 div ucast (sampleRate (decoder e))))"
    by (simp add: engine_position_def g z)
  show ?thesis
    by (simp only: 1 2 3 4) (simp add: ms_exact)
qed

theorem duration_position_guarded_witness:
  "unat (totalFrames decoder_two_seconds) * 1000 < 2 ^ 63
   \<and> unat (currentFrame decoder_two_seconds) * 1000 < 2 ^ 63
   \<and> unat (totalFrames_a engine_two_seconds) * 1000 < 2 ^ 63
   \<and> unat (currentFrame_a engine_two_seconds) * 1000 < 2 ^ 63
   \<and> decoder_duration decoder_two_seconds = Inr 2000
   \<and> decoder_position decoder_two_seconds = Inr 1000
   \<and> engine_duration engine_two_seconds = Inr 2000
   \<and> engine_position engine_two_seconds = Inr 1000"
  using duration_position_guarded [of decoder_two_seconds engine_two_seconds]
  by (simp add: engine_eval Duration_def)

text \<open>
  With the sample rate at 0 the queries return 0 whatever the frame counters hold, and
  above the range the product wraps around: \<open>2 ^ 61\<close> frames at 1 Hz give 0.
\<close>

lemma duration_zero_rate:
  "decoder_duration (decoder_two_seconds\<lparr>sampleRate := 0\<rparr>) = Inr 0
   \<and> engine_position (engine_two_seconds\<lparr>decoder := decoder_two_seconds\<lparr>sampleRate := 0\<rparr>\<rparr>)
       = Inr 0"
  by (simp add: decoder_duration_def engine_position_def Duration_def)

lemma duration_wraps_above_range:
  "decoder_duration (decoder_closed\<lparr>totalFrames := 2 ^ 61, sampleRate := 1\<rparr>) = Inr 0"
  by (simp add: decoder_duration_def udiv64_def Duration_def decoder_closed_def)

end
